theory Spec2Isabelle
  imports Complex_Main "HOL-Library.Multiset"
begin

section \<open>Configuration constants\<close>

text \<open>
  The module-level constants of \<^verbatim>\<open>disk_logic.py\<close> (and, with the same values, of
  \<^verbatim>\<open>disk_sheduling.py\<close>). Python's unbounded integers are \<^typ>\<open>int\<close>. Python floats
  are modelled by the exact real numbers they approximate: rounding and overflow of
  floating-point arithmetic are outside this model.
\<close>

definition MAX_TRACK :: int where
  "MAX_TRACK = 199"

definition MIN_TRACK :: int where
  "MIN_TRACK = 0"

definition SEEK_TIME_PER_TRACK :: real where
  "SEEK_TIME_PER_TRACK = 1"

section \<open>Errors and the engine state\<close>

text \<open>
  The exceptions the modelled statements can raise: reading an attribute that was never
  assigned, reading a local variable that no branch bound, \<^verbatim>\<open>min\<close> of an empty list
  or \<^verbatim>\<open>remove\<close> of an absent element, and a division by zero.
\<close>

datatype error = AttributeError | UnboundLocalError | ValueError | ZeroDivisionError

text \<open>
  The attributes of a \<^verbatim>\<open>DiskScheduler\<close> object. \<^verbatim>\<open>self.requests\<close> is not assigned by
  the constructor, only by \<^verbatim>\<open>simulate\<close>, hence the option.
\<close>

record scheduler =
  initial_requests :: "int list"
  initial_head :: int
  head_position :: int
  total_seek_time :: int
  movement_sequence :: "int list"
  requests :: "int list option"

text \<open>The constructor \<^verbatim>\<open>__init__(self, requests, initial_head)\<close>.\<close>

definition DiskScheduler :: "int list \<Rightarrow> int \<Rightarrow> scheduler" where
  "DiskScheduler reqs head =
     \<lparr>initial_requests = reqs,
      initial_head = head,
      head_position = head,
      total_seek_time = 0,
      movement_sequence = [head],
      requests = None\<rparr>"

text \<open>
  A method that returns nothing yields the exception it raised, if any, together with the
  object as it is at that moment.
\<close>

type_synonym outcome = "error option \<times> scheduler"

text \<open>
  The three statements that end every service step of every algorithm:
  \<^verbatim>\<open>self.total_seek_time += seek; self.head_position = next_track;
  self.movement_sequence.append(next_track)\<close>.
\<close>

definition advance :: "int \<Rightarrow> int \<Rightarrow> scheduler \<Rightarrow> scheduler" where
  "advance seek next_track s =
     s\<lparr>total_seek_time := total_seek_time s + seek,
       head_position := next_track,
       movement_sequence := movement_sequence s @ [next_track]\<rparr>"

section \<open>FCFS\<close>

text \<open>
  The \<^verbatim>\<open>while current_requests:\<close> loop of \<^verbatim>\<open>_fcfs\<close>; \<^verbatim>\<open>pop(0)\<close> takes the first
  element of a list the loop condition has found non-empty.
\<close>

fun fcfs_loop :: "int list \<Rightarrow> scheduler \<Rightarrow> scheduler" where
  "fcfs_loop [] s = s"
| "fcfs_loop (next_track # current_requests) s =
     fcfs_loop current_requests (advance \<bar>next_track - head_position s\<bar> next_track s)"

definition fcfs :: "scheduler \<Rightarrow> outcome" where
  "fcfs s =
     (case requests s of
        None \<Rightarrow> (Some AttributeError, s)
      | Some current_requests \<Rightarrow> (None, fcfs_loop current_requests s))"

section \<open>SSTF\<close>

text \<open>
  Python's \<^verbatim>\<open>min(xs, key=k)\<close>: it walks the list from the left, keeps the best element
  seen so far and replaces it only by an element whose key is strictly smaller; on an
  empty list it raises \<^verbatim>\<open>ValueError\<close>.
\<close>

fun py_min_from :: "(int \<Rightarrow> int) \<Rightarrow> int \<Rightarrow> int list \<Rightarrow> int" where
  "py_min_from key best [] = best"
| "py_min_from key best (x # xs) =
     (if key x < key best then py_min_from key x xs else py_min_from key best xs)"

definition py_min :: "(int \<Rightarrow> int) \<Rightarrow> int list \<Rightarrow> error + int" where
  "py_min key xs = (case xs of [] \<Rightarrow> Inl ValueError | x # rest \<Rightarrow> Inr (py_min_from key x rest))"

text \<open>
  Python's \<^verbatim>\<open>xs.remove(x)\<close>: it deletes the first element equal to \<^verbatim>\<open>x\<close> and raises
  \<^verbatim>\<open>ValueError\<close> when there is none.
\<close>

definition py_remove :: "int \<Rightarrow> int list \<Rightarrow> error + int list" where
  "py_remove x xs = (if x \<in> set xs then Inr (remove1 x xs) else Inl ValueError)"

text \<open>The \<^verbatim>\<open>while current_requests:\<close> loop of \<^verbatim>\<open>_sstf\<close>.\<close>

function sstf_loop :: "int list \<Rightarrow> scheduler \<Rightarrow> outcome" where
  "sstf_loop current_requests s =
     (if current_requests = [] then (None, s)
      else
        case py_min (\<lambda>track. \<bar>track - head_position s\<bar>) current_requests of
          Inl e \<Rightarrow> (Some e, s)
        | Inr next_track \<Rightarrow>
            (case py_remove next_track current_requests of
               Inl e \<Rightarrow> (Some e, advance \<bar>next_track - head_position s\<bar> next_track s)
             | Inr rest \<Rightarrow>
                 sstf_loop rest (advance \<bar>next_track - head_position s\<bar> next_track s)))"
  by pat_completeness auto

termination sstf_loop
  by (relation "measure (\<lambda>(current_requests, s). length current_requests)")
     (auto simp: py_remove_def length_remove1 split: if_splits dest: length_pos_if_in_set)

declare sstf_loop.simps [simp del]

definition sstf :: "scheduler \<Rightarrow> outcome" where
  "sstf s =
     (case requests s of
        None \<Rightarrow> (Some AttributeError, s)
      | Some current_requests \<Rightarrow> sstf_loop current_requests s)"

section \<open>SCAN and C-SCAN\<close>

text \<open>
  Python's \<^verbatim>\<open>sorted(xs)\<close> on integers is \<^const>\<open>sort\<close>; \<^verbatim>\<open>sorted(xs, reverse=True)\<close>
  is the descending list \<open>rev (sort xs)\<close> (equal integers are indistinguishable, so the
  stability of the sort is not observable); \<^verbatim>\<open>xs.reverse()\<close> is \<^const>\<open>rev\<close>.

  The first \<^verbatim>\<open>if direction == 'UP': ... elif direction == 'DOWN': ...\<close> block of
  \<^verbatim>\<open>_scan_or_cscan\<close> in \<^verbatim>\<open>disk_logic.py\<close>. It binds \<^verbatim>\<open>current_list\<close>,
  \<^verbatim>\<open>other_list\<close> and \<^verbatim>\<open>boundaries\<close>; with any other direction the first two stay
  unbound, which is the result \<open>None\<close> here.
\<close>

definition scan_lists ::
  "string \<Rightarrow> string \<Rightarrow> int list \<Rightarrow> int list \<Rightarrow> (int list \<times> int list \<times> int list) option" where
  "scan_lists algorithm direction lower upper =
     (if direction = ''UP'' then
        Some (sort upper,
              (if algorithm = ''SCAN'' then rev (sort lower) else sort lower),
              (if algorithm = ''SCAN'' then [MAX_TRACK]
               else if algorithm = ''C-SCAN'' then [MAX_TRACK, MIN_TRACK]
               else []))
      else if direction = ''DOWN'' then
        Some (rev (sort lower),
              (if algorithm = ''SCAN'' then rev (rev (sort upper)) else rev (sort upper)),
              (if algorithm = ''SCAN'' then [MIN_TRACK]
               else if algorithm = ''C-SCAN'' then [MIN_TRACK, MAX_TRACK]
               else []))
      else None)"

text \<open>
  The same block in \<^verbatim>\<open>disk_sheduling.py\<close>: there \<^verbatim>\<open>other_list\<close> is sorted in its final
  order at once (\<^verbatim>\<open>sorted(lower, reverse=True)\<close> for UP, \<^verbatim>\<open>sorted(upper)\<close> for DOWN)
  and never reversed.
\<close>

definition sheduling_scan_lists ::
  "string \<Rightarrow> string \<Rightarrow> int list \<Rightarrow> int list \<Rightarrow> (int list \<times> int list \<times> int list) option" where
  "sheduling_scan_lists algorithm direction lower upper =
     (if direction = ''UP'' then
        Some (sort upper,
              rev (sort lower),
              (if algorithm = ''SCAN'' then [MAX_TRACK]
               else if algorithm = ''C-SCAN'' then [MAX_TRACK, MIN_TRACK]
               else []))
      else if direction = ''DOWN'' then
        Some (rev (sort lower),
              sort upper,
              (if algorithm = ''SCAN'' then [MIN_TRACK]
               else if algorithm = ''C-SCAN'' then [MIN_TRACK, MAX_TRACK]
               else []))
      else None)"

text \<open>
  The second block (\<^verbatim>\<open>if algorithm == 'SCAN': ... elif algorithm == 'C-SCAN': ...\<close>),
  identical in both files: what is appended to \<^verbatim>\<open>sequence\<close> after \<^verbatim>\<open>current_list\<close>.
\<close>

definition scan_tail ::
  "string \<Rightarrow> string \<Rightarrow> int list \<Rightarrow> int list \<Rightarrow> int list \<Rightarrow> int list \<Rightarrow> int list" where
  "scan_tail algorithm direction lower upper other_list boundaries =
     (if algorithm = ''SCAN'' then boundaries @ other_list
      else if algorithm = ''C-SCAN'' then
        boundaries @
          (if direction = ''UP'' then sort lower
           else if direction = ''DOWN'' then rev (sort upper)
           else [])
      else [])"

text \<open>
  The loop \<^verbatim>\<open>for next_track in sequence:\<close> that moves the head and charges the seek,
  identical in both files.
\<close>

fun seek_loop :: "string \<Rightarrow> int list \<Rightarrow> scheduler \<Rightarrow> scheduler" where
  "seek_loop algorithm [] s = s"
| "seek_loop algorithm (next_track # sequence) s =
     (let seek = \<bar>next_track - head_position s\<bar>;
          seek = (if algorithm = ''C-SCAN'' \<and>
                     ((head_position s = MAX_TRACK \<and> next_track = MIN_TRACK) \<or>
                      (head_position s = MIN_TRACK \<and> next_track = MAX_TRACK))
                  then 0 else seek)
      in seek_loop algorithm sequence (advance seek next_track s))"

text \<open>\<^verbatim>\<open>_scan_or_cscan\<close> of \<^verbatim>\<open>disk_logic.py\<close>.\<close>

definition scan_or_cscan :: "string \<Rightarrow> string \<Rightarrow> scheduler \<Rightarrow> outcome" where
  "scan_or_cscan algorithm direction s =
     (case requests s of
        None \<Rightarrow> (Some AttributeError, s)
      | Some reqs \<Rightarrow>
          let sorted_requests = sort reqs;
              current_head = initial_head s;
              lower = filter (\<lambda>r. r < current_head) sorted_requests;
              upper = filter (\<lambda>r. r \<ge> current_head) sorted_requests
          in (case scan_lists algorithm direction lower upper of
                None \<Rightarrow> (Some UnboundLocalError, s)
              | Some (current_list, other_list, boundaries) \<Rightarrow>
                  (None,
                   seek_loop algorithm
                     (current_list @ scan_tail algorithm direction lower upper other_list boundaries)
                     s)))"

text \<open>\<^verbatim>\<open>_scan_or_cscan\<close> of \<^verbatim>\<open>disk_sheduling.py\<close>.\<close>

definition sheduling_scan_or_cscan :: "string \<Rightarrow> string \<Rightarrow> scheduler \<Rightarrow> outcome" where
  "sheduling_scan_or_cscan algorithm direction s =
     (case requests s of
        None \<Rightarrow> (Some AttributeError, s)
      | Some reqs \<Rightarrow>
          let sorted_requests = sort reqs;
              current_head = initial_head s;
              lower = filter (\<lambda>r. r < current_head) sorted_requests;
              upper = filter (\<lambda>r. r \<ge> current_head) sorted_requests
          in (case sheduling_scan_lists algorithm direction lower upper of
                None \<Rightarrow> (Some UnboundLocalError, s)
              | Some (current_list, other_list, boundaries) \<Rightarrow>
                  (None,
                   seek_loop algorithm
                     (current_list @ scan_tail algorithm direction lower upper other_list boundaries)
                     s)))"

section \<open>Metrics and the entry point\<close>

text \<open>Python's true division \<^verbatim>\<open>a / b\<close>, which raises when the divisor is zero.\<close>

definition truediv :: "real \<Rightarrow> real \<Rightarrow> error + real" where
  "truediv a b = (if b = 0 then Inl ZeroDivisionError else Inr (a / b))"

text \<open>\<^verbatim>\<open>_calculate_metrics\<close>: total seek, average seek and throughput.\<close>

definition calculate_metrics :: "scheduler \<Rightarrow> error + (int \<times> real \<times> real)" where
  "calculate_metrics s =
     (let total_time = real_of_int (total_seek_time s) * SEEK_TIME_PER_TRACK;
          num_requests = length (initial_requests s)
      in case (if num_requests \<noteq> 0
               then truediv (real_of_int (total_seek_time s)) (real num_requests)
               else Inr 0) of
           Inl e \<Rightarrow> Inl e
         | Inr avg_seek_time \<Rightarrow>
             (case (if total_time > 0 then truediv (real num_requests) total_time else Inr 0) of
                Inl e \<Rightarrow> Inl e
              | Inr throughput \<Rightarrow> Inr (total_seek_time s, avg_seek_time, throughput)))"

text \<open>
  What \<^verbatim>\<open>simulate\<close> gives back: an exception, or the returned tuple, where \<open>None\<close> is
  the failure tuple \<^verbatim>\<open>(None, None, None, None)\<close> and \<open>Some (sequence, total, average,
  throughput)\<close> a completed run.
\<close>

type_synonym simulation = "error + (int list \<times> int \<times> real \<times> real) option"

text \<open>
  The first four statements of \<^verbatim>\<open>simulate\<close>, which reset the mutable attributes.
\<close>

definition reset :: "scheduler \<Rightarrow> scheduler" where
  "reset s =
     s\<lparr>head_position := initial_head s,
       requests := Some (initial_requests s),
       total_seek_time := 0,
       movement_sequence := [initial_head s]\<rparr>"

text \<open>
  The last two statements of \<^verbatim>\<open>simulate\<close>, reached when the chosen algorithm has run:
  compute the metrics and return them with the movement sequence.
\<close>

definition simulate_return :: "outcome \<Rightarrow> simulation \<times> scheduler" where
  "simulate_return r =
     (case r of
        (Some e, s) \<Rightarrow> (Inl e, s)
      | (None, s) \<Rightarrow>
          (case calculate_metrics s of
             Inl e \<Rightarrow> (Inl e, s)
           | Inr (total_seek, avg_seek, throughput) \<Rightarrow>
               (Inr (Some (movement_sequence s, total_seek, avg_seek, throughput)), s)))"

text \<open>\<^verbatim>\<open>simulate\<close> of \<^verbatim>\<open>disk_logic.py\<close>.\<close>

definition simulate :: "string \<Rightarrow> string \<Rightarrow> scheduler \<Rightarrow> simulation \<times> scheduler" where
  "simulate algorithm direction s =
     (if algorithm = ''FCFS'' then simulate_return (fcfs (reset s))
      else if algorithm = ''SSTF'' then simulate_return (sstf (reset s))
      else if algorithm = ''SCAN'' \<or> algorithm = ''C-SCAN'' then
        simulate_return (scan_or_cscan algorithm direction (reset s))
      else (Inr None, reset s))"

text \<open>
  \<^verbatim>\<open>simulate\<close> of \<^verbatim>\<open>disk_sheduling.py\<close>. The constructor, \<^verbatim>\<open>_calculate_metrics\<close>,
  \<^verbatim>\<open>_fcfs\<close> and \<^verbatim>\<open>_sstf\<close> of that file repeat those of \<^verbatim>\<open>disk_logic.py\<close> statement
  by statement, so their models are shared; only \<^verbatim>\<open>_scan_or_cscan\<close> differs.
\<close>

definition sheduling_simulate :: "string \<Rightarrow> string \<Rightarrow> scheduler \<Rightarrow> simulation \<times> scheduler" where
  "sheduling_simulate algorithm direction s =
     (if algorithm = ''FCFS'' then simulate_return (fcfs (reset s))
      else if algorithm = ''SSTF'' then simulate_return (sstf (reset s))
      else if algorithm = ''SCAN'' \<or> algorithm = ''C-SCAN'' then
        simulate_return (sheduling_scan_or_cscan algorithm direction (reset s))
      else (Inr None, reset s))"

section \<open>Basic facts about the loops\<close>

lemma advance_simps [simp]:
  "total_seek_time (advance k n s) = total_seek_time s + k"
  "head_position (advance k n s) = n"
  "movement_sequence (advance k n s) = movement_sequence s @ [n]"
  "initial_requests (advance k n s) = initial_requests s"
  "initial_head (advance k n s) = initial_head s"
  "requests (advance k n s) = requests s"
  by (simp_all add: advance_def)

lemma py_min_from_split:
  "\<exists>pre post. best # xs = pre @ py_min_from key best xs # post
     \<and> (\<forall>x\<in>set pre. key (py_min_from key best xs) < key x)
     \<and> (\<forall>x\<in>set post. key (py_min_from key best xs) \<le> key x)"
proof (induction xs arbitrary: best)
  case Nil
  have "[best] = [] @ py_min_from key best [] # []" by simp
  then show ?case by (metis empty_iff empty_set)
next
  case (Cons x xs)
  show ?case
  proof (cases "key x < key best")
    case True
    let ?r = "py_min_from key x xs"
    have r: "py_min_from key best (x # xs) = ?r" using True by simp
    from Cons.IH [of x] obtain pre post where
      eq: "x # xs = pre @ ?r # post" and
      lt: "\<forall>y\<in>set pre. key ?r < key y" and
      le: "\<forall>y\<in>set post. key ?r \<le> key y"
      by blast
    have "x \<in> set (pre @ ?r # post)" unfolding eq [symmetric] by simp
    then have "key ?r \<le> key x" using lt le by auto
    then have "key ?r < key best" using True by simp
    then have B: "\<forall>y\<in>set (best # pre). key ?r < key y" using lt by simp
    have A: "best # x # xs = (best # pre) @ ?r # post" using eq by simp
    show ?thesis unfolding r using A B le by blast
  next
    case False
    let ?r = "py_min_from key best xs"
    have r: "py_min_from key best (x # xs) = ?r" using False by simp
    from Cons.IH [of best] obtain pre post where
      eq: "best # xs = pre @ ?r # post" and
      lt: "\<forall>y\<in>set pre. key ?r < key y" and
      le: "\<forall>y\<in>set post. key ?r \<le> key y"
      by blast
    show ?thesis
    proof (cases pre)
      case Nil
      have e: "best # xs = ?r # post" using eq unfolding Nil append_Nil .
      have best: "?r = best" using e by (metis list.inject)
      have xs: "xs = post" using e by (metis list.inject)
      have A: "best # x # xs = [] @ ?r # (x # post)"
        unfolding append_Nil best unfolding xs ..
      have "key ?r \<le> key x" unfolding best using False by simp
      then have C: "\<forall>y\<in>set (x # post). key ?r \<le> key y" using le by simp
      have B: "\<forall>y\<in>set []. key ?r < key y" by simp
      show ?thesis unfolding r using A B C by blast
    next
      case (Cons b pre')
      have e: "best # xs = b # pre' @ ?r # post" using eq unfolding Cons append_Cons .
      have b: "b = best" using e by (metis list.inject)
      have xs: "xs = pre' @ ?r # post" using e by (metis list.inject)
      have "key ?r < key best" using lt Cons b by simp
      then have "key ?r < key x" using False by simp
      then have B: "\<forall>y\<in>set (best # x # pre'). key ?r < key y" using lt Cons b by simp
      have A: "best # x # xs = (best # x # pre') @ ?r # post" using xs by simp
      show ?thesis unfolding r using A B le by blast
    qed
  qed
qed

lemma py_min_split:
  assumes "xs \<noteq> []"
  shows "\<exists>pre r post. py_min key xs = Inr r \<and> xs = pre @ r # post
     \<and> (\<forall>x\<in>set pre. key r < key x) \<and> (\<forall>x\<in>set post. key r \<le> key x)"
proof -
  obtain a rest where xs: "xs = a # rest" using assms by (cases xs) auto
  show ?thesis using py_min_from_split [of a rest key] by (simp add: py_min_def xs)
qed

lemma py_remove_split:
  "\<forall>x\<in>set pre. x \<noteq> r \<Longrightarrow> py_remove r (pre @ r # post) = Inr (pre @ post)"
  by (auto simp: py_remove_def remove1_append)

lemma sstf_loop_step:
  assumes "current_requests \<noteq> []"
  shows "\<exists>pre next_track post.
     current_requests = pre @ next_track # post \<and>
     (\<forall>x\<in>set pre. \<bar>next_track - head_position s\<bar> < \<bar>x - head_position s\<bar>) \<and>
     (\<forall>x\<in>set post. \<bar>next_track - head_position s\<bar> \<le> \<bar>x - head_position s\<bar>) \<and>
     sstf_loop current_requests s =
       sstf_loop (pre @ post) (advance \<bar>next_track - head_position s\<bar> next_track s)"
proof -
  let ?key = "\<lambda>track. \<bar>track - head_position s\<bar>"
  from py_min_split [OF assms, of ?key] obtain pre r post where
    m: "py_min ?key current_requests = Inr r" and
    eq: "current_requests = pre @ r # post" and
    lt: "\<forall>x\<in>set pre. ?key r < ?key x" and
    le: "\<forall>x\<in>set post. ?key r \<le> ?key x"
    by blast
  have "\<forall>x\<in>set pre. x \<noteq> r" using lt by auto
  then have rm: "py_remove r current_requests = Inr (pre @ post)"
    unfolding eq by (rule py_remove_split)
  have "sstf_loop current_requests s = sstf_loop (pre @ post) (advance (?key r) r s)"
    using assms m rm by (subst sstf_loop.simps) simp
  then show ?thesis using eq lt le by blast
qed

lemma fcfs_loop_movement: "movement_sequence (fcfs_loop xs s) = movement_sequence s @ xs"
  by (induction xs arbitrary: s) simp_all

lemma fcfs_loop_total_ge: "total_seek_time s \<le> total_seek_time (fcfs_loop xs s)"
proof (induction xs arbitrary: s)
  case Nil
  show ?case by simp
next
  case (Cons x xs)
  have "total_seek_time s \<le> total_seek_time (advance \<bar>x - head_position s\<bar> x s)" by simp
  also have "\<dots> \<le> total_seek_time (fcfs_loop (x # xs) s)"
    using Cons.IH [of "advance \<bar>x - head_position s\<bar> x s"] by simp
  finally show ?case .
qed

lemma fcfs_loop_initial:
  "initial_requests (fcfs_loop xs s) = initial_requests s \<and> initial_head (fcfs_loop xs s) = initial_head s"
  by (induction xs arbitrary: s) simp_all

lemma seek_loop_movement: "movement_sequence (seek_loop a xs s) = movement_sequence s @ xs"
  by (induction xs arbitrary: s) (simp_all add: Let_def)

lemma seek_loop_total_ge: "total_seek_time s \<le> total_seek_time (seek_loop a xs s)"
proof (induction xs arbitrary: s)
  case Nil
  show ?case by simp
next
  case (Cons x xs)
  define k where "k = (if a = ''C-SCAN'' \<and>
                     ((head_position s = MAX_TRACK \<and> x = MIN_TRACK) \<or>
                      (head_position s = MIN_TRACK \<and> x = MAX_TRACK))
                  then 0 else \<bar>x - head_position s\<bar>)"
  have "0 \<le> k" by (simp add: k_def)
  then have "total_seek_time s \<le> total_seek_time (advance k x s)" by simp
  also have "\<dots> \<le> total_seek_time (seek_loop a xs (advance k x s))" by (rule Cons.IH)
  also have "\<dots> = total_seek_time (seek_loop a (x # xs) s)" by (simp add: k_def Let_def)
  finally show ?case .
qed

lemma seek_loop_initial:
  "initial_requests (seek_loop a xs s) = initial_requests s \<and> initial_head (seek_loop a xs s) = initial_head s"
  by (induction xs arbitrary: s) (simp_all add: Let_def)

lemma sstf_loop_inv:
  "\<exists>s' ys. sstf_loop xs s = (None, s') \<and> movement_sequence s' = movement_sequence s @ ys
      \<and> mset ys = mset xs \<and> total_seek_time s \<le> total_seek_time s'
      \<and> initial_requests s' = initial_requests s \<and> initial_head s' = initial_head s"
proof (induction xs arbitrary: s rule: length_induct)
  case (1 xs)
  show ?case
  proof (cases "xs = []")
    case True
    then show ?thesis by (subst sstf_loop.simps) simp
  next
    case False
    from sstf_loop_step [OF False, of s] obtain pre r post where
      eq: "xs = pre @ r # post" and
      step: "sstf_loop xs s = sstf_loop (pre @ post) (advance \<bar>r - head_position s\<bar> r s)"
      by blast
    let ?s1 = "advance \<bar>r - head_position s\<bar> r s"
    have "length (pre @ post) < length xs" using eq by simp
    with 1 obtain s' ys where
      r: "sstf_loop (pre @ post) ?s1 = (None, s')" and
      m: "movement_sequence s' = movement_sequence ?s1 @ ys" and
      ms: "mset ys = mset (pre @ post)" and
      t: "total_seek_time ?s1 \<le> total_seek_time s'" and
      i: "initial_requests s' = initial_requests ?s1" "initial_head s' = initial_head ?s1"
      by blast
    have "movement_sequence s' = movement_sequence s @ (r # ys)" using m by simp
    moreover have "mset (r # ys) = mset xs" using ms eq by simp
    moreover have "total_seek_time s \<le> total_seek_time s'" using t by simp
    moreover have "initial_requests s' = initial_requests s" "initial_head s' = initial_head s"
      using i by simp_all
    ultimately show ?thesis using r step by simp
  qed
qed

lemma reset_simps [simp]:
  "head_position (reset s) = initial_head s"
  "requests (reset s) = Some (initial_requests s)"
  "total_seek_time (reset s) = 0"
  "movement_sequence (reset s) = [initial_head s]"
  "initial_requests (reset s) = initial_requests s"
  "initial_head (reset s) = initial_head s"
  by (simp_all add: reset_def)

lemma reset_determined:
  "initial_requests s = initial_requests t \<Longrightarrow> initial_head s = initial_head t \<Longrightarrow> reset s = reset t"
  by (simp add: reset_def)

lemma calculate_metrics_value:
  assumes "0 \<le> total_seek_time s"
  shows "calculate_metrics s =
     Inr (total_seek_time s,
          (if length (initial_requests s) = 0 then 0
           else real_of_int (total_seek_time s) / real (length (initial_requests s))),
          (if total_seek_time s = 0 then 0
           else real (length (initial_requests s)) /
                (real_of_int (total_seek_time s) * SEEK_TIME_PER_TRACK)))"
proof (cases "total_seek_time s = 0")
  case True
  then show ?thesis by (simp add: calculate_metrics_def truediv_def Let_def)
next
  case False
  then have "0 < total_seek_time s" using assms by simp
  then show ?thesis
    by (simp add: calculate_metrics_def truediv_def SEEK_TIME_PER_TRACK_def Let_def)
qed

lemma simulate_return_value:
  assumes "0 \<le> total_seek_time s"
  shows "simulate_return (None, s) =
     (Inr (Some (movement_sequence s, total_seek_time s,
          (if length (initial_requests s) = 0 then 0
           else real_of_int (total_seek_time s) / real (length (initial_requests s))),
          (if total_seek_time s = 0 then 0
           else real (length (initial_requests s)) /
                (real_of_int (total_seek_time s) * SEEK_TIME_PER_TRACK)))), s)"
  by (simp add: simulate_return_def calculate_metrics_value [OF assms])

lemma simulate_return_state: "snd (simulate_return (e, s)) = s"
  by (simp add: simulate_return_def split: option.splits sum.splits prod.splits)

text \<open>The sequence each recognised run walks, in terms of the original request list.\<close>

lemma scan_or_cscan_UP:
  "scan_or_cscan ''SCAN'' ''UP'' (reset s) =
     (None, seek_loop ''SCAN''
        (sort (filter (\<lambda>r. initial_head s \<le> r) (initial_requests s)) @ [MAX_TRACK] @
         rev (sort (filter (\<lambda>r. r < initial_head s) (initial_requests s)))) (reset s))"
  by (simp add: scan_or_cscan_def scan_lists_def scan_tail_def filter_sort sorted_sort_id Let_def)

lemma scan_or_cscan_DOWN:
  "scan_or_cscan ''SCAN'' ''DOWN'' (reset s) =
     (None, seek_loop ''SCAN''
        (rev (sort (filter (\<lambda>r. r < initial_head s) (initial_requests s))) @ [MIN_TRACK] @
         sort (filter (\<lambda>r. initial_head s \<le> r) (initial_requests s))) (reset s))"
  by (simp add: scan_or_cscan_def scan_lists_def scan_tail_def filter_sort sorted_sort_id Let_def)

lemma cscan_UP:
  "scan_or_cscan ''C-SCAN'' ''UP'' (reset s) =
     (None, seek_loop ''C-SCAN''
        (sort (filter (\<lambda>r. initial_head s \<le> r) (initial_requests s)) @ [MAX_TRACK, MIN_TRACK] @
         sort (filter (\<lambda>r. r < initial_head s) (initial_requests s))) (reset s))"
  by (simp add: scan_or_cscan_def scan_lists_def scan_tail_def filter_sort sorted_sort_id Let_def)

lemma cscan_DOWN:
  "scan_or_cscan ''C-SCAN'' ''DOWN'' (reset s) =
     (None, seek_loop ''C-SCAN''
        (rev (sort (filter (\<lambda>r. r < initial_head s) (initial_requests s))) @ [MIN_TRACK, MAX_TRACK] @
         rev (sort (filter (\<lambda>r. initial_head s \<le> r) (initial_requests s)))) (reset s))"
  by (simp add: scan_or_cscan_def scan_lists_def scan_tail_def filter_sort sorted_sort_id Let_def)

lemma simulate_scan_like:
  assumes "algorithm = ''SCAN'' \<or> algorithm = ''C-SCAN''"
    and "scan_or_cscan algorithm direction (reset s) = (None, seek_loop algorithm xs (reset s))"
  shows "fst (simulate algorithm direction s) =
     Inr (Some (initial_head s # xs,
          total_seek_time (seek_loop algorithm xs (reset s)),
          (if length (initial_requests s) = 0 then 0
           else real_of_int (total_seek_time (seek_loop algorithm xs (reset s))) /
                real (length (initial_requests s))),
          (if total_seek_time (seek_loop algorithm xs (reset s)) = 0 then 0
           else real (length (initial_requests s)) /
                (real_of_int (total_seek_time (seek_loop algorithm xs (reset s))) *
                 SEEK_TIME_PER_TRACK))))"
proof -
  let ?s' = "seek_loop algorithm xs (reset s)"
  have "0 \<le> total_seek_time ?s'"
    using seek_loop_total_ge [of "reset s" algorithm xs] by simp
  from simulate_return_value [OF this]
  have "fst (simulate_return (None, ?s')) = Inr (Some (movement_sequence ?s', total_seek_time ?s',
          (if length (initial_requests ?s') = 0 then 0
           else real_of_int (total_seek_time ?s') / real (length (initial_requests ?s'))),
          (if total_seek_time ?s' = 0 then 0
           else real (length (initial_requests ?s')) /
                (real_of_int (total_seek_time ?s') * SEEK_TIME_PER_TRACK))))"
    by simp
  moreover have "simulate algorithm direction s = simulate_return (None, ?s')"
    using assms by (auto simp: simulate_def)
  ultimately show ?thesis
    by (simp add: seek_loop_movement seek_loop_initial)
qed

lemma simulate_keeps_initial:
  "initial_requests (snd (simulate algorithm direction s)) = initial_requests s
   \<and> initial_head (snd (simulate algorithm direction s)) = initial_head s"
proof -
  have f: "initial_requests (snd (fcfs (reset s))) = initial_requests s
      \<and> initial_head (snd (fcfs (reset s))) = initial_head s"
    by (simp add: fcfs_def fcfs_loop_initial)
  have t: "initial_requests (snd (sstf (reset s))) = initial_requests s
      \<and> initial_head (snd (sstf (reset s))) = initial_head s"
    using sstf_loop_inv [of "initial_requests s" "reset s"] by (auto simp: sstf_def)
  have c: "initial_requests (snd (scan_or_cscan algorithm direction (reset s))) = initial_requests s
      \<and> initial_head (snd (scan_or_cscan algorithm direction (reset s))) = initial_head s"
    by (simp add: scan_or_cscan_def Let_def seek_loop_initial split: option.splits)
  show ?thesis
    using f t c
    by (cases "fcfs (reset s)"; cases "sstf (reset s)";
        cases "scan_or_cscan algorithm direction (reset s)")
       (simp add: simulate_def simulate_return_state)
qed

lemma simulate_reset: "simulate algorithm direction s = simulate algorithm direction (reset s)"
proof -
  have r: "reset (reset s) = reset s" by (rule reset_determined) simp_all
  show ?thesis by (simp only: simulate_def r)
qed

text \<open>
  With a direction other than UP and DOWN, SCAN and C-SCAN read \<^verbatim>\<open>current_list\<close>
  before any branch has bound it.
\<close>

lemma unknown_direction_raises:
  assumes "algorithm = ''SCAN'' \<or> algorithm = ''C-SCAN''"
    and "direction \<noteq> ''UP''" and "direction \<noteq> ''DOWN''"
  shows "fst (simulate algorithm direction s) = Inl UnboundLocalError"
  using assms
  by (auto simp: simulate_def scan_or_cscan_def scan_lists_def simulate_return_def Let_def)

lemma upper_lower_partition:
  "mset (sort (filter (\<lambda>r. h \<le> r) rs)) + mset (sort (filter (\<lambda>r. r < h) rs)) = mset (rs::int list)"
  using multiset_partition [of "mset rs" "\<lambda>r. h \<le> r"] by (simp add: not_le)

lemma seek_loop_reset_nonneg: "0 \<le> total_seek_time (seek_loop a xs (reset s))"
  using seek_loop_total_ge [of "reset s" a xs] by simp

lemma scan_run:
  assumes "scan_or_cscan algorithm direction (reset s) = (None, seek_loop algorithm xs (reset s))"
    and "algorithm = ''SCAN'' \<or> algorithm = ''C-SCAN''"
    and "mset xs = mset (initial_requests s) + B"
  shows "\<exists>s' rest. simulate algorithm direction s = simulate_return (None, s')
     \<and> 0 \<le> total_seek_time s'
     \<and> initial_requests s' = initial_requests s
     \<and> movement_sequence s' = initial_head s # rest
     \<and> mset rest = mset (initial_requests s) + B"
proof -
  let ?s' = "seek_loop algorithm xs (reset s)"
  have "simulate algorithm direction s = simulate_return (None, ?s')"
    using assms(1,2) by (auto simp: simulate_def)
  moreover have "0 \<le> total_seek_time ?s'" by (rule seek_loop_reset_nonneg)
  moreover have "initial_requests ?s' = initial_requests s" by (simp add: seek_loop_initial)
  moreover have "movement_sequence ?s' = initial_head s # xs" by (simp add: seek_loop_movement)
  ultimately show ?thesis using assms(3) by blast
qed

lemma fcfs_run:
  "\<exists>s' rest. simulate ''FCFS'' direction s = simulate_return (None, s')
     \<and> 0 \<le> total_seek_time s'
     \<and> initial_requests s' = initial_requests s
     \<and> movement_sequence s' = initial_head s # rest
     \<and> mset rest = mset (initial_requests s) + {#}"
proof -
  let ?s' = "fcfs_loop (initial_requests s) (reset s)"
  have "simulate ''FCFS'' direction s = simulate_return (None, ?s')"
    by (simp add: simulate_def fcfs_def)
  moreover have "0 \<le> total_seek_time ?s'"
    using fcfs_loop_total_ge [of "reset s" "initial_requests s"] by simp
  moreover have "initial_requests ?s' = initial_requests s" by (simp add: fcfs_loop_initial)
  moreover have "movement_sequence ?s' = initial_head s # initial_requests s"
    by (simp add: fcfs_loop_movement)
  moreover have "mset (initial_requests s) = mset (initial_requests s) + {#}" by simp
  ultimately show ?thesis by blast
qed

lemma sstf_run:
  "\<exists>s' rest. simulate ''SSTF'' direction s = simulate_return (None, s')
     \<and> 0 \<le> total_seek_time s'
     \<and> initial_requests s' = initial_requests s
     \<and> movement_sequence s' = initial_head s # rest
     \<and> mset rest = mset (initial_requests s) + {#}"
proof -
  from sstf_loop_inv [of "initial_requests s" "reset s"] obtain s' ys where
    r: "sstf_loop (initial_requests s) (reset s) = (None, s')" and
    m: "movement_sequence s' = movement_sequence (reset s) @ ys" and
    ms: "mset ys = mset (initial_requests s)" and
    t: "total_seek_time (reset s) \<le> total_seek_time s'" and
    i: "initial_requests s' = initial_requests (reset s)"
    by blast
  have "simulate ''SSTF'' direction s = simulate_return (None, s')"
    by (simp add: simulate_def sstf_def r)
  moreover have "movement_sequence s' = initial_head s # ys" using m by simp
  moreover have "0 \<le> total_seek_time s'" using t by simp
  moreover have "initial_requests s' = initial_requests s" using i by simp
  moreover have "mset ys = mset (initial_requests s) + {#}" using ms by simp
  ultimately show ?thesis by blast
qed

lemma scan_sequence_mset:
  fixes rs :: "int list" and h :: int
  defines "up \<equiv> sort (filter (\<lambda>r. h \<le> r) rs)" and "lo \<equiv> sort (filter (\<lambda>r. r < h) rs)"
  shows "mset (up @ [MAX_TRACK] @ rev lo) = mset rs + {#MAX_TRACK#}"
    and "mset (rev lo @ [MIN_TRACK] @ up) = mset rs + {#MIN_TRACK#}"
    and "mset (up @ [MAX_TRACK, MIN_TRACK] @ lo) = mset rs + {#MAX_TRACK, MIN_TRACK#}"
    and "mset (rev lo @ [MIN_TRACK, MAX_TRACK] @ rev up) = mset rs + {#MAX_TRACK, MIN_TRACK#}"
proof -
  have "mset up + mset lo = mset rs" unfolding up_def lo_def by (rule upper_lower_partition)
  then have p: "mset rs = mset up + mset lo" by (rule sym)
  show "mset (up @ [MAX_TRACK] @ rev lo) = mset rs + {#MAX_TRACK#}"
    unfolding p by (simp only: mset_append mset_rev mset.simps ac_simps)
  show "mset (rev lo @ [MIN_TRACK] @ up) = mset rs + {#MIN_TRACK#}"
    unfolding p by (simp only: mset_append mset_rev mset.simps ac_simps)
  show "mset (up @ [MAX_TRACK, MIN_TRACK] @ lo) = mset rs + {#MAX_TRACK, MIN_TRACK#}"
    unfolding p by (simp only: mset_append mset_rev mset.simps ac_simps)
  show "mset (rev lo @ [MIN_TRACK, MAX_TRACK] @ rev up) = mset rs + {#MAX_TRACK, MIN_TRACK#}"
    unfolding p
    by (simp only: mset_append mset_rev mset.simps ac_simps add_mset_commute [of MIN_TRACK MAX_TRACK])
qed

lemma recognised_run:
  assumes "algorithm = ''FCFS'' \<or> algorithm = ''SSTF'' \<or>
   ((algorithm = ''SCAN'' \<or> algorithm = ''C-SCAN'') \<and> (direction = ''UP'' \<or> direction = ''DOWN''))"
  shows "\<exists>s' rest. simulate algorithm direction s = simulate_return (None, s')
   \<and> 0 \<le> total_seek_time s'
   \<and> initial_requests s' = initial_requests s
   \<and> movement_sequence s' = initial_head s # rest
   \<and> mset rest = mset (initial_requests s) +
        (if algorithm = ''SCAN'' then {#if direction = ''UP'' then MAX_TRACK else MIN_TRACK#}
         else if algorithm = ''C-SCAN'' then {#MAX_TRACK, MIN_TRACK#}
         else {#})"
  using assms
proof (elim disjE conjE)
  assume fcfs: "algorithm = ''FCFS''"
  have B: "(if algorithm = ''SCAN'' then {#if direction = ''UP'' then MAX_TRACK else MIN_TRACK#}
         else if algorithm = ''C-SCAN'' then {#MAX_TRACK, MIN_TRACK#}
         else {#}) = {#}"
    by (simp add: fcfs)
  show ?thesis unfolding B unfolding fcfs by (rule fcfs_run)
next
  assume sstf: "algorithm = ''SSTF''"
  have B: "(if algorithm = ''SCAN'' then {#if direction = ''UP'' then MAX_TRACK else MIN_TRACK#}
         else if algorithm = ''C-SCAN'' then {#MAX_TRACK, MIN_TRACK#}
         else {#}) = {#}"
    by (simp add: sstf)
  show ?thesis unfolding B unfolding sstf by (rule sstf_run)
next
  assume scan_up: "algorithm = ''SCAN''" "direction = ''UP''"
  have B: "(if algorithm = ''SCAN'' then {#if direction = ''UP'' then MAX_TRACK else MIN_TRACK#}
         else if algorithm = ''C-SCAN'' then {#MAX_TRACK, MIN_TRACK#}
         else {#}) = {#MAX_TRACK#}"
    by (simp add: scan_up)
  show ?thesis unfolding B unfolding scan_up
    by (rule scan_run [OF scan_or_cscan_UP _ scan_sequence_mset(1)]) simp
next
  assume scan_down: "algorithm = ''SCAN''" "direction = ''DOWN''"
  have B: "(if algorithm = ''SCAN'' then {#if direction = ''UP'' then MAX_TRACK else MIN_TRACK#}
         else if algorithm = ''C-SCAN'' then {#MAX_TRACK, MIN_TRACK#}
         else {#}) = {#MIN_TRACK#}"
    by (simp add: scan_down)
  show ?thesis unfolding B unfolding scan_down
    by (rule scan_run [OF scan_or_cscan_DOWN _ scan_sequence_mset(2)]) simp
next
  assume cscan_up: "algorithm = ''C-SCAN''" "direction = ''UP''"
  have B: "(if algorithm = ''SCAN'' then {#if direction = ''UP'' then MAX_TRACK else MIN_TRACK#}
         else if algorithm = ''C-SCAN'' then {#MAX_TRACK, MIN_TRACK#}
         else {#}) = {#MAX_TRACK, MIN_TRACK#}"
    by (simp add: cscan_up)
  show ?thesis unfolding B unfolding cscan_up
    by (rule scan_run [OF cscan_UP _ scan_sequence_mset(3)]) simp
next
  assume cscan_down: "algorithm = ''C-SCAN''" "direction = ''DOWN''"
  have B: "(if algorithm = ''SCAN'' then {#if direction = ''UP'' then MAX_TRACK else MIN_TRACK#}
         else if algorithm = ''C-SCAN'' then {#MAX_TRACK, MIN_TRACK#}
         else {#}) = {#MAX_TRACK, MIN_TRACK#}"
    by (simp add: cscan_down)
  show ?thesis unfolding B unfolding cscan_down
    by (rule scan_run [OF cscan_DOWN _ scan_sequence_mset(4)]) simp
qed

lemma DiskScheduler_simps [simp]:
  "initial_requests (DiskScheduler reqs head) = reqs"
  "initial_head (DiskScheduler reqs head) = head"
  by (simp_all add: DiskScheduler_def)

lemma simulate_scan_sequence:
  assumes "algorithm = ''SCAN'' \<or> algorithm = ''C-SCAN''"
    and "scan_or_cscan algorithm direction (reset s) = (None, seek_loop algorithm xs (reset s))"
  shows "\<exists>total_seek avg_seek throughput.
     fst (simulate algorithm direction s) =
       Inr (Some (initial_head s # xs, total_seek, avg_seek, throughput))"
  using simulate_scan_like [OF assms] by blast

lemma sstf_example:
  "fst (simulate ''SSTF'' direction (DiskScheduler [82, 170, 43, 140, 24, 16, 190] 50)) =
     Inr (Some ([50, 43, 24, 16, 82, 140, 170, 190], 208, 208 / 7, 7 / 208))"
  by (simp add: simulate_def sstf_def reset_def DiskScheduler_def sstf_loop.simps py_min_def
      py_remove_def advance_def simulate_return_def calculate_metrics_def truediv_def
      SEEK_TIME_PER_TRACK_def)

lemma sheduling_scan_or_cscan_eq:
  "sheduling_scan_or_cscan algorithm direction s = scan_or_cscan algorithm direction s"
proof (cases "requests s")
  case None
  then show ?thesis by (simp add: sheduling_scan_or_cscan_def scan_or_cscan_def)
next
  case (Some reqs)
  show ?thesis
  proof (cases "direction = ''UP''")
    case True
    then show ?thesis
      by (simp add: Some sheduling_scan_or_cscan_def scan_or_cscan_def Let_def
          sheduling_scan_lists_def scan_lists_def scan_tail_def)
  next
    case False
    then show ?thesis
      by (simp add: Some sheduling_scan_or_cscan_def scan_or_cscan_def Let_def
          sheduling_scan_lists_def scan_lists_def scan_tail_def)
  qed
qed

section \<open>C-SCAN seek accounting\<close>

text \<open>
  C1. The claim: C-SCAN charges the distance \<open>\<bar>next - current\<bar>\<close> for every transition
  of the movement sequence and charges 0 only for the single wrap jump between the two
  boundaries, so that the total is the sum of the absolute differences over all
  transitions except that one jump. The code recognises the jump by the values of the
  two tracks, not by its place in the sequence. With the head at track 0 and the single
  request 199, going up, the movement is 0, 199, 199, 0: the first transition services
  the request at distance 199, the second reaches the boundary at distance 0, the third
  is the wrap jump. The claimed total is 199 + 0 = 199; the code also charges 0 for the
  first transition and returns the total 0.
\<close>

theorem cscan_charges_service_move_zero:
  "fst (simulate ''C-SCAN'' ''UP'' (DiskScheduler [199] 0)) = Inr (Some ([0, 199, 199, 0], 0, 0, 0))"
  by (simp add: simulate_def scan_or_cscan_def scan_lists_def scan_tail_def reset_def
      DiskScheduler_def advance_def simulate_return_def calculate_metrics_def truediv_def
      SEEK_TIME_PER_TRACK_def MAX_TRACK_def MIN_TRACK_def Let_def)

section \<open>SSTF selection\<close>

text \<open>
  C2. For every non-empty list of remaining requests and every engine state, one
  iteration of the SSTF loop splits the remaining list around the request it services:
  every request before it is strictly farther from the current head, every request after
  it is at least as far (so it is the first request of minimum distance), the head moves
  there, the distance is added to the total, the track is appended to the movement log,
  and the loop goes on with exactly that one occurrence removed. The loop ends without an
  exception. For requests 82, 170, 43, 140, 24, 16, 190 and head 50 the movement is
  50, 43, 24, 16, 82, 140, 170, 190 and the total seek 208.
\<close>

theorem sstf_services_first_nearest:
  assumes "current_requests \<noteq> []"
  shows "(\<exists>pre next_track post.
       current_requests = pre @ next_track # post
     \<and> (\<forall>x\<in>set pre. \<bar>next_track - head_position s\<bar> < \<bar>x - head_position s\<bar>)
     \<and> (\<forall>x\<in>set post. \<bar>next_track - head_position s\<bar> \<le> \<bar>x - head_position s\<bar>)
     \<and> sstf_loop current_requests s =
         sstf_loop (pre @ post)
           (s\<lparr>total_seek_time := total_seek_time s + \<bar>next_track - head_position s\<bar>,
              head_position := next_track,
              movement_sequence := movement_sequence s @ [next_track]\<rparr>))
   \<and> (\<exists>s'. sstf_loop current_requests s = (None, s'))
   \<and> fst (simulate ''SSTF'' direction (DiskScheduler [82, 170, 43, 140, 24, 16, 190] 50)) =
       Inr (Some ([50, 43, 24, 16, 82, 140, 170, 190], 208, 208 / 7, 7 / 208))"
proof (intro conjI)
  show "\<exists>pre next_track post.
       current_requests = pre @ next_track # post
     \<and> (\<forall>x\<in>set pre. \<bar>next_track - head_position s\<bar> < \<bar>x - head_position s\<bar>)
     \<and> (\<forall>x\<in>set post. \<bar>next_track - head_position s\<bar> \<le> \<bar>x - head_position s\<bar>)
     \<and> sstf_loop current_requests s =
         sstf_loop (pre @ post)
           (s\<lparr>total_seek_time := total_seek_time s + \<bar>next_track - head_position s\<bar>,
              head_position := next_track,
              movement_sequence := movement_sequence s @ [next_track]\<rparr>)"
    using sstf_loop_step [OF assms, of s] unfolding advance_def .
  show "\<exists>s'. sstf_loop current_requests s = (None, s')"
    using sstf_loop_inv [of current_requests s] by blast
  show "fst (simulate ''SSTF'' direction (DiskScheduler [82, 170, 43, 140, 24, 16, 190] 50)) =
       Inr (Some ([50, 43, 24, 16, 82, 140, 170, 190], 208, 208 / 7, 7 / 208))"
    by (rule sstf_example)
qed

theorem sstf_services_first_nearest_witness:
  "[30, 70, 45, 55] \<noteq> ([] :: int list)
   \<and> (\<exists>pre next_track post.
       [30, 70, 45, 55] = pre @ next_track # post
     \<and> (\<forall>x\<in>set pre. \<bar>next_track - head_position (DiskScheduler [30, 70, 45, 55] 50)\<bar>
            < \<bar>x - head_position (DiskScheduler [30, 70, 45, 55] 50)\<bar>)
     \<and> (\<forall>x\<in>set post. \<bar>next_track - head_position (DiskScheduler [30, 70, 45, 55] 50)\<bar>
            \<le> \<bar>x - head_position (DiskScheduler [30, 70, 45, 55] 50)\<bar>))
   \<and> fst (simulate ''SSTF'' ''UP'' (DiskScheduler [30, 70, 45, 55] 50)) =
       Inr (Some ([50, 45, 55, 70, 30], 70, 35 / 2, 2 / 35))"
proof -
  have h: "[30, 70, 45, 55] \<noteq> ([] :: int list)" by simp
  have "\<exists>pre next_track post.
       [30, 70, 45, 55] = pre @ next_track # post
     \<and> (\<forall>x\<in>set pre. \<bar>next_track - head_position (DiskScheduler [30, 70, 45, 55] 50)\<bar>
            < \<bar>x - head_position (DiskScheduler [30, 70, 45, 55] 50)\<bar>)
     \<and> (\<forall>x\<in>set post. \<bar>next_track - head_position (DiskScheduler [30, 70, 45, 55] 50)\<bar>
            \<le> \<bar>x - head_position (DiskScheduler [30, 70, 45, 55] 50)\<bar>)"
    using sstf_services_first_nearest [OF h, of "DiskScheduler [30, 70, 45, 55] 50"] by blast
  moreover have "fst (simulate ''SSTF'' ''UP'' (DiskScheduler [30, 70, 45, 55] 50)) =
       Inr (Some ([50, 45, 55, 70, 30], 70, 35 / 2, 2 / 35))"
    by (simp add: simulate_def sstf_def reset_def DiskScheduler_def sstf_loop.simps py_min_def
      py_remove_def advance_def simulate_return_def calculate_metrics_def truediv_def
      SEEK_TIME_PER_TRACK_def)
  ultimately show ?thesis using h by blast
qed

section \<open>SCAN sweep order\<close>

text \<open>
  C3. For every request list and head, SCAN going up visits the requests at or above the
  head in ascending order, then \<open>MAX_TRACK\<close> (requested or not), then the requests below
  the head in descending order; SCAN going down visits the requests below the head in
  descending order, then \<open>MIN_TRACK\<close>, then the requests at or above the head in ascending
  order. For requests 82, 170, 43, 140, 24, 16, 190 and head 50, going up, the movement
  is 50, 82, 140, 170, 190, 199, 43, 24, 16 and the total seek 332.
\<close>

theorem scan_sweep_order:
  "(\<exists>total_seek avg_seek throughput.
      fst (simulate ''SCAN'' ''UP'' (DiskScheduler reqs head)) =
        Inr (Some (head # sort (filter (\<lambda>r. head \<le> r) reqs) @ [MAX_TRACK] @
                          rev (sort (filter (\<lambda>r. r < head) reqs)),
                   total_seek, avg_seek, throughput)))
   \<and> (\<exists>total_seek avg_seek throughput.
      fst (simulate ''SCAN'' ''DOWN'' (DiskScheduler reqs head)) =
        Inr (Some (head # rev (sort (filter (\<lambda>r. r < head) reqs)) @ [MIN_TRACK] @
                          sort (filter (\<lambda>r. head \<le> r) reqs),
                   total_seek, avg_seek, throughput)))
   \<and> fst (simulate ''SCAN'' ''UP'' (DiskScheduler [82, 170, 43, 140, 24, 16, 190] 50)) =
       Inr (Some ([50, 82, 140, 170, 190, 199, 43, 24, 16], 332, 332 / 7, 7 / 332))"
proof (intro conjI)
  show "\<exists>total_seek avg_seek throughput.
      fst (simulate ''SCAN'' ''UP'' (DiskScheduler reqs head)) =
        Inr (Some (head # sort (filter (\<lambda>r. head \<le> r) reqs) @ [MAX_TRACK] @
                          rev (sort (filter (\<lambda>r. r < head) reqs)),
                   total_seek, avg_seek, throughput))"
    using simulate_scan_sequence [OF _ scan_or_cscan_UP, of "DiskScheduler reqs head"] by simp
  show "\<exists>total_seek avg_seek throughput.
      fst (simulate ''SCAN'' ''DOWN'' (DiskScheduler reqs head)) =
        Inr (Some (head # rev (sort (filter (\<lambda>r. r < head) reqs)) @ [MIN_TRACK] @
                          sort (filter (\<lambda>r. head \<le> r) reqs),
                   total_seek, avg_seek, throughput))"
    using simulate_scan_sequence [OF _ scan_or_cscan_DOWN, of "DiskScheduler reqs head"] by simp
  show "fst (simulate ''SCAN'' ''UP'' (DiskScheduler [82, 170, 43, 140, 24, 16, 190] 50)) =
       Inr (Some ([50, 82, 140, 170, 190, 199, 43, 24, 16], 332, 332 / 7, 7 / 332))"
    by (simp add: simulate_def scan_or_cscan_def scan_lists_def scan_tail_def reset_def
        DiskScheduler_def advance_def simulate_return_def calculate_metrics_def truediv_def
        SEEK_TIME_PER_TRACK_def MAX_TRACK_def MIN_TRACK_def)
qed

section \<open>C-SCAN sweep order\<close>

text \<open>
  C4. For every request list and head, C-SCAN going up visits the requests at or above
  the head in ascending order, then \<open>MAX_TRACK\<close>, then \<open>MIN_TRACK\<close>, then the requests
  below the head in ascending order again; C-SCAN going down visits the requests below
  the head in descending order, then \<open>MIN_TRACK\<close>, then \<open>MAX_TRACK\<close>, then the requests at
  or above the head in descending order again. The second leg keeps the direction of the
  first. For requests 82, 170, 43, 140, 24, 16, 190 and head 50, going up, the movement
  is 50, 82, 140, 170, 190, 199, 0, 16, 24, 43 and the total seek 192.
\<close>

theorem cscan_sweep_order:
  "(\<exists>total_seek avg_seek throughput.
      fst (simulate ''C-SCAN'' ''UP'' (DiskScheduler reqs head)) =
        Inr (Some (head # sort (filter (\<lambda>r. head \<le> r) reqs) @ [MAX_TRACK, MIN_TRACK] @
                          sort (filter (\<lambda>r. r < head) reqs),
                   total_seek, avg_seek, throughput)))
   \<and> (\<exists>total_seek avg_seek throughput.
      fst (simulate ''C-SCAN'' ''DOWN'' (DiskScheduler reqs head)) =
        Inr (Some (head # rev (sort (filter (\<lambda>r. r < head) reqs)) @ [MIN_TRACK, MAX_TRACK] @
                          rev (sort (filter (\<lambda>r. head \<le> r) reqs)),
                   total_seek, avg_seek, throughput)))
   \<and> fst (simulate ''C-SCAN'' ''UP'' (DiskScheduler [82, 170, 43, 140, 24, 16, 190] 50)) =
       Inr (Some ([50, 82, 140, 170, 190, 199, 0, 16, 24, 43], 192, 192 / 7, 7 / 192))"
proof (intro conjI)
  show "\<exists>total_seek avg_seek throughput.
      fst (simulate ''C-SCAN'' ''UP'' (DiskScheduler reqs head)) =
        Inr (Some (head # sort (filter (\<lambda>r. head \<le> r) reqs) @ [MAX_TRACK, MIN_TRACK] @
                          sort (filter (\<lambda>r. r < head) reqs),
                   total_seek, avg_seek, throughput))"
    using simulate_scan_sequence [OF _ cscan_UP, of "DiskScheduler reqs head"] by simp
  show "\<exists>total_seek avg_seek throughput.
      fst (simulate ''C-SCAN'' ''DOWN'' (DiskScheduler reqs head)) =
        Inr (Some (head # rev (sort (filter (\<lambda>r. r < head) reqs)) @ [MIN_TRACK, MAX_TRACK] @
                          rev (sort (filter (\<lambda>r. head \<le> r) reqs)),
                   total_seek, avg_seek, throughput))"
    using simulate_scan_sequence [OF _ cscan_DOWN, of "DiskScheduler reqs head"] by simp
  show "fst (simulate ''C-SCAN'' ''UP'' (DiskScheduler [82, 170, 43, 140, 24, 16, 190] 50)) =
       Inr (Some ([50, 82, 140, 170, 190, 199, 0, 16, 24, 43], 192, 192 / 7, 7 / 192))"
    by (simp add: simulate_def scan_or_cscan_def scan_lists_def scan_tail_def reset_def
        DiskScheduler_def advance_def simulate_return_def calculate_metrics_def truediv_def
        SEEK_TIME_PER_TRACK_def MAX_TRACK_def MIN_TRACK_def)
qed

section \<open>Completeness of the movement sequence\<close>

text \<open>
  C5. For every request list and every recognised algorithm (with direction UP or DOWN
  where the algorithm is SCAN or C-SCAN), the returned movement sequence starts with the
  initial head, and what follows is a rearrangement of the original requests, duplicates
  counted, with nothing added for FCFS and SSTF, the one boundary reached added for SCAN
  (\<open>MAX_TRACK\<close> going up, \<open>MIN_TRACK\<close> going down) and both boundaries added for C-SCAN.
  So no request is dropped or duplicated, and the length is 1 + the number of requests,
  + 1 for SCAN, + 2 for C-SCAN.
\<close>

theorem movement_sequence_is_permutation:
  assumes "algorithm = ''FCFS'' \<or> algorithm = ''SSTF'' \<or>
     ((algorithm = ''SCAN'' \<or> algorithm = ''C-SCAN'') \<and> (direction = ''UP'' \<or> direction = ''DOWN''))"
  shows "\<exists>rest total_seek avg_seek throughput.
     fst (simulate algorithm direction s) =
       Inr (Some (initial_head s # rest, total_seek, avg_seek, throughput))
     \<and> mset rest = mset (initial_requests s) +
          (if algorithm = ''SCAN'' then {#if direction = ''UP'' then MAX_TRACK else MIN_TRACK#}
           else if algorithm = ''C-SCAN'' then {#MAX_TRACK, MIN_TRACK#}
           else {#})
     \<and> length (initial_head s # rest) =
          1 + length (initial_requests s) +
          (if algorithm = ''SCAN'' then 1 else if algorithm = ''C-SCAN'' then 2 else 0)"
proof -
  let ?B = "if algorithm = ''SCAN'' then {#if direction = ''UP'' then MAX_TRACK else MIN_TRACK#}
           else if algorithm = ''C-SCAN'' then {#MAX_TRACK, MIN_TRACK#}
           else {#}"
  from recognised_run [OF assms, of s] obtain s' rest where
    run: "simulate algorithm direction s = simulate_return (None, s')" and
    nonneg: "0 \<le> total_seek_time s'" and
    mv: "movement_sequence s' = initial_head s # rest" and
    ms: "mset rest = mset (initial_requests s) + ?B"
    by blast
  have "size (mset rest) = size (mset (initial_requests s)) + size ?B"
    unfolding ms by (rule size_union)
  moreover have "size ?B = (if algorithm = ''SCAN'' then 1 else if algorithm = ''C-SCAN'' then 2 else 0)"
    by simp
  ultimately have len: "length (initial_head s # rest) =
          1 + length (initial_requests s) +
          (if algorithm = ''SCAN'' then 1 else if algorithm = ''C-SCAN'' then 2 else 0)"
    by simp
  have "fst (simulate algorithm direction s) =
       Inr (Some (initial_head s # rest, total_seek_time s',
          (if length (initial_requests s') = 0 then 0
           else real_of_int (total_seek_time s') / real (length (initial_requests s'))),
          (if total_seek_time s' = 0 then 0
           else real (length (initial_requests s')) /
                (real_of_int (total_seek_time s') * SEEK_TIME_PER_TRACK))))"
    unfolding run simulate_return_value [OF nonneg] mv by simp
  then show ?thesis using ms len by blast
qed

theorem movement_sequence_is_permutation_witness:
  "(''C-SCAN'' = ''FCFS'' \<or> ''C-SCAN'' = ''SSTF'' \<or>
     ((''C-SCAN'' = ''SCAN'' \<or> ''C-SCAN'' = ''C-SCAN'') \<and> (''DOWN'' = ''UP'' \<or> ''DOWN'' = ''DOWN'')))
   \<and> (\<exists>rest total_seek avg_seek throughput.
     fst (simulate ''C-SCAN'' ''DOWN'' (DiskScheduler [82, 170, 43, 140, 24, 16, 190] 50)) =
       Inr (Some (50 # rest, total_seek, avg_seek, throughput))
     \<and> mset rest = mset [82, 170, 43, 140, 24, 16, 190] + {#MAX_TRACK, MIN_TRACK#}
     \<and> length (50 # rest) = 1 + length [82, 170, 43, 140, 24, 16, 190 :: int] + 2)"
proof -
  have h: "''C-SCAN'' = ''FCFS'' \<or> ''C-SCAN'' = ''SSTF'' \<or>
     ((''C-SCAN'' = ''SCAN'' \<or> ''C-SCAN'' = ''C-SCAN'') \<and> (''DOWN'' = ''UP'' \<or> ''DOWN'' = ''DOWN''))"
    by simp
  have i: "initial_head (DiskScheduler [82, 170, 43, 140, 24, 16, 190] 50) = 50"
    "initial_requests (DiskScheduler [82, 170, 43, 140, 24, 16, 190] 50) = [82, 170, 43, 140, 24, 16, 190]"
    by (simp_all add: DiskScheduler_def)
  have c: "(if ''C-SCAN'' = ''SCAN'' then {#if ''DOWN'' = ''UP'' then MAX_TRACK else MIN_TRACK#}
           else if ''C-SCAN'' = ''C-SCAN'' then {#MAX_TRACK, MIN_TRACK#}
           else {#}) = {#MAX_TRACK, MIN_TRACK#}"
    "(if ''C-SCAN'' = ''SCAN'' then 1 else if ''C-SCAN'' = ''C-SCAN'' then 2 else 0) = (2::nat)"
    by simp_all
  show ?thesis
    using h movement_sequence_is_permutation
      [OF h, of "DiskScheduler [82, 170, 43, 140, 24, 16, 190] 50", unfolded i c]
    by (rule conjI)
qed

section \<open>Metrics\<close>

text \<open>
  C6. For every run with a recognised algorithm (direction UP or DOWN where it is SCAN
  or C-SCAN), \<^verbatim>\<open>simulate\<close> returns normally, so neither division raised. The total it
  returns is the seek distance the run has accumulated in the engine, and it is not
  negative; the sequence it returns is the engine's movement log; the average seek is 0
  when there are no requests and that total divided by the number of original requests
  otherwise; the throughput is 0 when that total is 0 and the number of requests divided
  by (total \<times> \<open>SEEK_TIME_PER_TRACK\<close>) otherwise.
\<close>

theorem metrics_guard_division:
  assumes "algorithm = ''FCFS'' \<or> algorithm = ''SSTF'' \<or>
     ((algorithm = ''SCAN'' \<or> algorithm = ''C-SCAN'') \<and> (direction = ''UP'' \<or> direction = ''DOWN''))"
  shows "0 \<le> total_seek_time (snd (simulate algorithm direction s))
   \<and> fst (simulate algorithm direction s) =
       Inr (Some (movement_sequence (snd (simulate algorithm direction s)),
          total_seek_time (snd (simulate algorithm direction s)),
          (if length (initial_requests s) = 0 then 0
           else real_of_int (total_seek_time (snd (simulate algorithm direction s))) /
                real (length (initial_requests s))),
          (if total_seek_time (snd (simulate algorithm direction s)) = 0 then 0
           else real (length (initial_requests s)) /
                (real_of_int (total_seek_time (snd (simulate algorithm direction s))) *
                 SEEK_TIME_PER_TRACK))))"
proof -
  from recognised_run [OF assms, of s] obtain s' rest where
    run: "simulate algorithm direction s = simulate_return (None, s')" and
    nonneg: "0 \<le> total_seek_time s'" and
    init: "initial_requests s' = initial_requests s" and
    mv: "movement_sequence s' = initial_head s # rest"
    by blast
  have state: "snd (simulate algorithm direction s) = s'"
    unfolding run by (rule simulate_return_state)
  have "fst (simulate algorithm direction s) =
       Inr (Some (movement_sequence s', total_seek_time s',
          (if length (initial_requests s) = 0 then 0
           else real_of_int (total_seek_time s') / real (length (initial_requests s))),
          (if total_seek_time s' = 0 then 0
           else real (length (initial_requests s)) /
                (real_of_int (total_seek_time s') * SEEK_TIME_PER_TRACK))))"
    unfolding run simulate_return_value [OF nonneg] init by simp
  then show ?thesis unfolding state using nonneg by (rule conjI [rotated])
qed

theorem metrics_guard_division_witness:
  "(''SCAN'' = ''FCFS'' \<or> ''SCAN'' = ''SSTF'' \<or>
     ((''SCAN'' = ''SCAN'' \<or> ''SCAN'' = ''C-SCAN'') \<and> (''UP'' = ''UP'' \<or> ''UP'' = ''DOWN'')))
   \<and> total_seek_time (snd (simulate ''SCAN'' ''UP'' (DiskScheduler [82, 170, 43, 140, 24, 16, 190] 50))) = 332
   \<and> fst (simulate ''SCAN'' ''UP'' (DiskScheduler [82, 170, 43, 140, 24, 16, 190] 50)) =
       Inr (Some ([50, 82, 140, 170, 190, 199, 43, 24, 16], 332, 332 / 7, 7 / 332))"
proof -
  let ?s = "DiskScheduler [82, 170, 43, 140, 24, 16, 190] 50"
  have h: "''SCAN'' = ''FCFS'' \<or> ''SCAN'' = ''SSTF'' \<or>
     ((''SCAN'' = ''SCAN'' \<or> ''SCAN'' = ''C-SCAN'') \<and> (''UP'' = ''UP'' \<or> ''UP'' = ''DOWN''))"
    by simp
  have t: "total_seek_time (snd (simulate ''SCAN'' ''UP'' ?s)) = 332"
    by (simp add: simulate_def scan_or_cscan_def scan_lists_def scan_tail_def reset_def
        DiskScheduler_def advance_def simulate_return_def calculate_metrics_def truediv_def
        SEEK_TIME_PER_TRACK_def MAX_TRACK_def MIN_TRACK_def Let_def)
  have m: "movement_sequence (snd (simulate ''SCAN'' ''UP'' ?s)) = [50, 82, 140, 170, 190, 199, 43, 24, 16]"
    by (simp add: simulate_def scan_or_cscan_def scan_lists_def scan_tail_def reset_def
        DiskScheduler_def advance_def simulate_return_def calculate_metrics_def truediv_def
        SEEK_TIME_PER_TRACK_def MAX_TRACK_def MIN_TRACK_def Let_def)
  have "fst (simulate ''SCAN'' ''UP'' ?s) =
       Inr (Some ([50, 82, 140, 170, 190, 199, 43, 24, 16], 332, 332 / 7, 7 / 332))"
    using metrics_guard_division [OF h, of ?s] unfolding t m
    by (simp add: SEEK_TIME_PER_TRACK_def)
  then show ?thesis using h t by simp
qed

section \<open>Unknown algorithm names\<close>

text \<open>
  C7. Whatever the request list, the head and the direction, \<^verbatim>\<open>simulate\<close> called with
  an algorithm name other than FCFS, SSTF, SCAN and C-SCAN returns the failure tuple
  (\<open>Inr None\<close>: no exception, no movement sequence, no metrics), and no movement has been
  computed: the engine is left in its reset state, with the movement log holding the
  initial head only and a seek total of 0.
\<close>

theorem unknown_algorithm_fails:
  assumes "algorithm \<noteq> ''FCFS''" and "algorithm \<noteq> ''SSTF''"
    and "algorithm \<noteq> ''SCAN''" and "algorithm \<noteq> ''C-SCAN''"
  shows "fst (simulate algorithm direction s) = Inr None
     \<and> movement_sequence (snd (simulate algorithm direction s)) = [initial_head s]
     \<and> total_seek_time (snd (simulate algorithm direction s)) = 0"
  using assms by (simp add: simulate_def)

theorem unknown_algorithm_fails_witness:
  "''LOOK'' \<noteq> ''FCFS'' \<and> ''LOOK'' \<noteq> ''SSTF'' \<and> ''LOOK'' \<noteq> ''SCAN'' \<and> ''LOOK'' \<noteq> ''C-SCAN''
   \<and> fst (simulate ''LOOK'' ''UP'' (DiskScheduler [82, 170, 43] 50)) = Inr None
   \<and> movement_sequence (snd (simulate ''LOOK'' ''UP'' (DiskScheduler [82, 170, 43] 50))) = [50]
   \<and> total_seek_time (snd (simulate ''LOOK'' ''UP'' (DiskScheduler [82, 170, 43] 50))) = 0"
  using unknown_algorithm_fails [of "''LOOK''" "''UP''" "DiskScheduler [82, 170, 43] 50"]
  by (simp add: DiskScheduler_def)

section \<open>Repeated runs\<close>

text \<open>
  C8. Take an engine in any state (fresh, or after any earlier runs) and call
  \<^verbatim>\<open>simulate\<close> twice, with any two algorithm names and directions (recognised or not,
  so the first call may also have failed or raised): what the second call returns is what
  a freshly constructed engine with the same requests and head returns for that call.
  Nothing of the first run survives the reset.
\<close>

theorem simulate_no_residual_state:
  "fst (simulate algorithm2 direction2 (snd (simulate algorithm1 direction1 s)))
   = fst (simulate algorithm2 direction2 (DiskScheduler (initial_requests s) (initial_head s)))"
proof -
  let ?fresh = "DiskScheduler (initial_requests s) (initial_head s)"
  let ?used = "snd (simulate algorithm1 direction1 s)"
  have "reset ?used = reset ?fresh"
    by (rule reset_determined) (simp_all add: simulate_keeps_initial)
  then have "simulate algorithm2 direction2 ?used = simulate algorithm2 direction2 ?fresh"
    using simulate_reset [of algorithm2 direction2 ?used]
          simulate_reset [of algorithm2 direction2 ?fresh] by simp
  then show ?thesis by simp
qed

section \<open>The two copies of the SCAN code\<close>

text \<open>
  C9. The claim: for some requests, head and direction the SCAN movement sequences of
  \<^verbatim>\<open>disk_logic.py\<close> and \<^verbatim>\<open>disk_sheduling.py\<close> differ. They never do: one file sorts
  the secondary list and then reverses it (twice, going down), the other sorts it in its
  final order at once, and both do so before the boundary is appended. First the claim
  as stated is refuted, over all requests, heads and direction strings.
\<close>

theorem scan_implementations_differ_counterexample:
  "\<not> (\<exists>reqs head direction.
        fst (sheduling_simulate ''SCAN'' direction (DiskScheduler reqs head)) \<noteq>
        fst (simulate ''SCAN'' direction (DiskScheduler reqs head)))"
  by (simp add: sheduling_simulate_def simulate_def sheduling_scan_or_cscan_eq)

text \<open>
  C9, as amended. The two files' \<^verbatim>\<open>simulate\<close> agree on every engine state, algorithm
  name and direction string: same returned value (or exception) and same engine state
  afterwards.
\<close>

theorem scan_implementations_agree:
  "sheduling_simulate algorithm direction s = simulate algorithm direction s"
proof -
  have "sheduling_scan_or_cscan algorithm direction (reset s) =
        scan_or_cscan algorithm direction (reset s)"
    by (rule sheduling_scan_or_cscan_eq)
  then show ?thesis
    by (simp add: sheduling_simulate_def simulate_def)
qed

section \<open>The empty request list\<close>

text \<open>
  What every algorithm returns when there are no requests, for any head. FCFS and SSTF
  return the head alone with all metrics 0; SCAN appends the boundary it reaches and
  charges the distance to it; C-SCAN appends both boundaries.
\<close>

lemma empty_request_list_runs:
  "fst (simulate ''FCFS'' direction (DiskScheduler [] head)) = Inr (Some ([head], 0, 0, 0))
   \<and> fst (simulate ''SSTF'' direction (DiskScheduler [] head)) = Inr (Some ([head], 0, 0, 0))
   \<and> fst (simulate ''SCAN'' ''UP'' (DiskScheduler [] head)) =
        Inr (Some ([head, MAX_TRACK], \<bar>MAX_TRACK - head\<bar>, 0, 0))
   \<and> fst (simulate ''SCAN'' ''DOWN'' (DiskScheduler [] head)) =
        Inr (Some ([head, MIN_TRACK], \<bar>MIN_TRACK - head\<bar>, 0, 0))
   \<and> fst (simulate ''C-SCAN'' ''UP'' (DiskScheduler [] head)) =
        Inr (Some ([head, MAX_TRACK, MIN_TRACK],
                   (if head = MIN_TRACK then 0 else \<bar>MAX_TRACK - head\<bar>), 0, 0))
   \<and> fst (simulate ''C-SCAN'' ''DOWN'' (DiskScheduler [] head)) =
        Inr (Some ([head, MIN_TRACK, MAX_TRACK],
                   (if head = MAX_TRACK then 0 else \<bar>MIN_TRACK - head\<bar>), 0, 0))"
proof (intro conjI)
  show "fst (simulate ''FCFS'' direction (DiskScheduler [] head)) = Inr (Some ([head], 0, 0, 0))"
    by (simp add: simulate_def fcfs_def reset_def DiskScheduler_def simulate_return_def
        calculate_metrics_def)
  show "fst (simulate ''SSTF'' direction (DiskScheduler [] head)) = Inr (Some ([head], 0, 0, 0))"
    by (simp add: simulate_def sstf_def sstf_loop.simps reset_def DiskScheduler_def
        simulate_return_def calculate_metrics_def)
  show "fst (simulate ''SCAN'' ''UP'' (DiskScheduler [] head)) =
        Inr (Some ([head, MAX_TRACK], \<bar>MAX_TRACK - head\<bar>, 0, 0))"
    by (simp add: simulate_def scan_or_cscan_def scan_lists_def scan_tail_def reset_def
        DiskScheduler_def advance_def simulate_return_def calculate_metrics_def truediv_def
        SEEK_TIME_PER_TRACK_def Let_def)
  show "fst (simulate ''SCAN'' ''DOWN'' (DiskScheduler [] head)) =
        Inr (Some ([head, MIN_TRACK], \<bar>MIN_TRACK - head\<bar>, 0, 0))"
    by (simp add: simulate_def scan_or_cscan_def scan_lists_def scan_tail_def reset_def
        DiskScheduler_def advance_def simulate_return_def calculate_metrics_def truediv_def
        SEEK_TIME_PER_TRACK_def Let_def)
  show "fst (simulate ''C-SCAN'' ''UP'' (DiskScheduler [] head)) =
        Inr (Some ([head, MAX_TRACK, MIN_TRACK],
                   (if head = MIN_TRACK then 0 else \<bar>MAX_TRACK - head\<bar>), 0, 0))"
    by (simp add: simulate_def scan_or_cscan_def scan_lists_def scan_tail_def reset_def
        DiskScheduler_def advance_def simulate_return_def calculate_metrics_def truediv_def
        SEEK_TIME_PER_TRACK_def MAX_TRACK_def MIN_TRACK_def Let_def)
  show "fst (simulate ''C-SCAN'' ''DOWN'' (DiskScheduler [] head)) =
        Inr (Some ([head, MIN_TRACK, MAX_TRACK],
                   (if head = MAX_TRACK then 0 else \<bar>MIN_TRACK - head\<bar>), 0, 0))"
    by (simp add: simulate_def scan_or_cscan_def scan_lists_def scan_tail_def reset_def
        DiskScheduler_def advance_def simulate_return_def calculate_metrics_def truediv_def
        SEEK_TIME_PER_TRACK_def MAX_TRACK_def MIN_TRACK_def Let_def)
qed

text \<open>
  C10. The claim: with no requests, FCFS and SSTF return the movement sequence holding
  the initial head alone with all metrics 0, while SCAN and C-SCAN still append their
  boundaries and charge the travel. For C-SCAN the code does not always charge it. Going
  up from head 0 the movement is 0, 199, 0: the head sweeps 199 tracks to \<open>MAX_TRACK\<close>
  and then jumps back, yet the total is 0, because the sweep from 0 to 199 meets the test
  for the wrap jump as well. Going down from head 199 the movement is 199, 0, 199, again
  with total 0.
\<close>

theorem cscan_empty_travel_not_charged:
  "fst (simulate ''C-SCAN'' ''UP'' (DiskScheduler [] 0)) = Inr (Some ([0, 199, 0], 0, 0, 0))
   \<and> fst (simulate ''C-SCAN'' ''DOWN'' (DiskScheduler [] 199)) =
       Inr (Some ([199, 0, 199], 0, 0, 0))"
  by (simp add: simulate_def scan_or_cscan_def scan_lists_def scan_tail_def reset_def
      DiskScheduler_def advance_def simulate_return_def calculate_metrics_def truediv_def
      SEEK_TIME_PER_TRACK_def MAX_TRACK_def MIN_TRACK_def Let_def)

end
